theory Spec2Isabelle
  imports Main "HOL-Library.Sublist"
begin

section \<open>Values, errors and the library boundary\<close>

text \<open>
  The module \<^verbatim>\<open>semantic_router/route.py\<close> validates route payloads, extracts a
  delimited payload from model output, derives a schema from a model or a callable, and
  keeps a list of routes that can be saved to and loaded from a file.

  Python strings are modelled as \<^typ>\<open>string\<close>; a character stands for a code point
  below 256. Values produced by \<^verbatim>\<open>json.loads\<close> and \<^verbatim>\<open>yaml.safe_load\<close> are
  modelled by the datatype \<open>json\<close>; a mapping is an association list in insertion
  order, as a Python \<^verbatim>\<open>dict\<close> iterates. Calls to \<^verbatim>\<open>logger\<close> only write
  diagnostics and are left out.
\<close>

datatype pyfloat = Finite int int | Infinity bool | NaN

datatype json =
    JNull
  | JBool bool
  | JInt int
  | JFloat pyfloat
  | JStr string
  | JList "json list"
  | JDict "(string \<times> json) list"

text \<open>
  Exceptions are values. The two exceptions that the module raises itself carry their
  message; the others are raised by the interpreter or by a library on behalf of the
  module's code.
\<close>

datatype error =
    ValueError string
  | Exception string
  | TypeError
  | KeyError
  | AttributeError
  | JSONDecodeError
  | YAMLError
  | ValidationError
  | FileNotFoundError
  | IsADirectoryError
  | PermissionError

text \<open>The names that the specification gives to the module's own failures.\<close>

abbreviation MissingConfigTagsError :: error where
  "MissingConfigTagsError \<equiv> ValueError ''No <config></config> tags found in the output.''"

abbreviation UnsupportedFileTypeError :: error where
  "UnsupportedFileTypeError \<equiv>
     ValueError ''Unsupported file type. Only .json and .yaml are supported''"

abbreviation InvalidConfigError :: error where
  "InvalidConfigError \<equiv> Exception ''Invalid config JSON or YAML''"

abbreviation RouteNotFoundError :: "string \<Rightarrow> error" where
  "RouteNotFoundError nm \<equiv> Exception (''Route `'' @ nm @ ''` not found'')"

text \<open>
  The codecs and the field coercion of the data-model library are not part of the
  module. They are parameters of the model: \<open>json_loads\<close> is \<^verbatim>\<open>json.loads\<close>
  (and \<^verbatim>\<open>json.load\<close> on the text of a file) with \<open>None\<close> for
  \<^verbatim>\<open>JSONDecodeError\<close>; \<open>json_dumps\<close> is \<^verbatim>\<open>json.dumps\<close> (and
  \<^verbatim>\<open>json.dump\<close>); \<open>yaml_safe_load\<close> and \<open>yaml_safe_dump\<close> are the YAML
  counterparts; \<open>coerce_str\<close> is what the data-model library makes of a value that
  is not a string where a string field is declared (\<open>None\<close> when it refuses).
\<close>

record pylib =
  json_loads :: "string \<Rightarrow> json option"
  json_dumps :: "json \<Rightarrow> string"
  yaml_safe_load :: "string \<Rightarrow> json option"
  yaml_safe_dump :: "json \<Rightarrow> string"
  coerce_str :: "json \<Rightarrow> string option"

section \<open>The validator\<close>

text \<open>
  \<^verbatim>\<open>key in item\<close>: key membership on a mapping, element membership on a list,
  substring test on a string, and \<^verbatim>\<open>TypeError\<close> on a value that is not iterable.
\<close>

fun py_in :: "string \<Rightarrow> json \<Rightarrow> error + bool" where
  "py_in key (JDict kvs) = Inr (key \<in> set (map fst kvs))"
| "py_in key (JList xs) = Inr (JStr key \<in> set xs)"
| "py_in key (JStr s) = Inr (sublist key s)"
| "py_in key JNull = Inl TypeError"
| "py_in key (JBool b) = Inl TypeError"
| "py_in key (JInt i) = Inl TypeError"
| "py_in key (JFloat f) = Inl TypeError"

definition required_keys :: "string list" where
  "required_keys = [''name'', ''utterances'']"

text \<open>\<^verbatim>\<open>[key for key in required_keys if key not in item]\<close>\<close>

fun missing_keys :: "string list \<Rightarrow> json \<Rightarrow> error + string list" where
  "missing_keys [] item = Inr []"
| "missing_keys (key # keys) item =
     (case py_in key item of
        Inl e \<Rightarrow> Inl e
      | Inr present \<Rightarrow>
          (case missing_keys keys item of
             Inl e \<Rightarrow> Inl e
           | Inr ms \<Rightarrow> Inr (if present then ms else key # ms)))"

text \<open>The loop over the items of a list payload; it stops at the first offending item.\<close>

fun check_items :: "json list \<Rightarrow> error + bool" where
  "check_items [] = Inr True"
| "check_items (item # items) =
     (case missing_keys required_keys item of
        Inl e \<Rightarrow> Inl e
      | Inr ms \<Rightarrow> if ms \<noteq> [] then Inr False else check_items items)"

definition is_valid :: "pylib \<Rightarrow> string \<Rightarrow> error + bool" where
  "is_valid L route_config =
     (case json_loads L route_config of
        None \<Rightarrow> Inr False
      | Some output_json \<Rightarrow>
          (case output_json of
             JList items \<Rightarrow> check_items items
           | _ \<Rightarrow>
               (case missing_keys required_keys output_json of
                  Inl e \<Rightarrow> Inl e
                | Inr ms \<Rightarrow> if ms \<noteq> [] then Inr False else Inr True)))"

section \<open>Extracting the delimited payload\<close>

text \<open>
  \<open>find_sub t s\<close> splits \<open>s\<close> around the leftmost occurrence of \<open>t\<close>.
\<close>

fun find_sub :: "string \<Rightarrow> string \<Rightarrow> (string \<times> string) option" where
  "find_sub t [] = (if t = [] then Some ([], []) else None)"
| "find_sub t (c # cs) =
     (if prefix t (c # cs) then Some ([], drop (length t) (c # cs))
      else map_option (\<lambda>(a, b). (c # a, b)) (find_sub t cs))"

text \<open>
  \<^verbatim>\<open>re.search(r"<config>(.*?)</config>", config, re.DOTALL)\<close>: the search tries
  the start positions from the left; at a position where the opening tag matches, the
  lazy group grows until the closing tag matches, and if it never does the search moves
  on to the next start position. The result is group 1.
\<close>

fun search_config :: "string \<Rightarrow> string option" where
  "search_config [] = None"
| "search_config (c # cs) =
     (if prefix ''<config>'' (c # cs) then
        (case find_sub ''</config>'' (drop (length ''<config>'') (c # cs)) of
           Some (content, rest) \<Rightarrow> Some content
         | None \<Rightarrow> search_config cs)
      else search_config cs)"

text \<open>
  \<^verbatim>\<open>str.isspace\<close> on the code points below 256, and \<^verbatim>\<open>str.strip()\<close>.
\<close>

definition is_space :: "char \<Rightarrow> bool" where
  "is_space c =
     (let n = (of_char c :: nat)
      in (9 \<le> n \<and> n \<le> 13) \<or> (28 \<le> n \<and> n \<le> 32) \<or> n = 133 \<or> n = 160)"

definition strip :: "string \<Rightarrow> string" where
  "strip s = rev (dropWhile is_space (rev (dropWhile is_space s)))"

definition parse_route_config :: "string \<Rightarrow> error + string" where
  "parse_route_config config =
     (case search_config config of
        Some content \<Rightarrow> Inr (strip content)
      | None \<Rightarrow> Inl MissingConfigTagsError)"

section \<open>Routes\<close>

record Route =
  name :: string
  utterances :: "string list"
  description :: "string option"

text \<open>\<^verbatim>\<open>Route.to_dict\<close>: the fields in declaration order.\<close>

definition Route_to_dict :: "Route \<Rightarrow> json" where
  "Route_to_dict r =
     JDict [(''name'', JStr (name r)),
            (''utterances'', JList (map JStr (utterances r))),
            (''description'', (case description r of None \<Rightarrow> JNull | Some d \<Rightarrow> JStr d))]"

text \<open>
  Field validation of the data model: a string is taken as it is, a list is validated
  element by element, \<^verbatim>\<open>None\<close> is accepted for the optional field; what happens
  to any other value in a string position is the library's coercion.
\<close>

definition validate_str :: "pylib \<Rightarrow> json \<Rightarrow> string option" where
  "validate_str L v = (case v of JStr s \<Rightarrow> Some s | _ \<Rightarrow> coerce_str L v)"

definition validate_str_list :: "pylib \<Rightarrow> json \<Rightarrow> string list option" where
  "validate_str_list L v =
     (case v of JList xs \<Rightarrow> those (map (validate_str L) xs) | _ \<Rightarrow> None)"

definition validate_opt_str :: "pylib \<Rightarrow> json \<Rightarrow> string option option" where
  "validate_opt_str L v =
     (case v of JNull \<Rightarrow> Some None | _ \<Rightarrow> map_option Some (validate_str L v))"

text \<open>
  \<^verbatim>\<open>Route.from_dict(data)\<close> is \<^verbatim>\<open>cls(**data)\<close>: unpacking anything but a
  mapping is a \<^verbatim>\<open>TypeError\<close>; a mapping is validated field by field, keys that
  are not fields are ignored.
\<close>

definition Route_from_dict :: "pylib \<Rightarrow> json \<Rightarrow> error + Route" where
  "Route_from_dict L data =
     (case data of
        JDict kvs \<Rightarrow>
          (case (map_of kvs ''name'', map_of kvs ''utterances'') of
             (Some n, Some u) \<Rightarrow>
               (case (validate_str L n, validate_str_list L u,
                      (case map_of kvs ''description'' of
                         None \<Rightarrow> Some None
                       | Some d \<Rightarrow> validate_opt_str L d)) of
                  (Some n', Some u', Some d') \<Rightarrow>
                    Inr \<lparr>name = n', utterances = u', description = d'\<rparr>
                | _ \<Rightarrow> Inl ValidationError)
           | _ \<Rightarrow> Inl ValidationError)
      | _ \<Rightarrow> Inl TypeError)"

section \<open>Dynamic route synthesis\<close>

text \<open>
  The schema of a data-model instance is built from what reflection yields: the class
  name, the documentation string, the class annotations in declaration order (each with
  the \<^verbatim>\<open>__name__\<close> of its type, if the type has one) and the field table with
  the defaults. A default enters the signature through its truth value and its
  \<^verbatim>\<open>repr\<close>.

  A callable is given by what reflection yields as well: its \<^verbatim>\<open>__name__\<close>, if it
  has one (a partial application and an instance with a call method have none, and
  reading the attribute raises \<^verbatim>\<open>AttributeError\<close>), its documentation string, and
  what \<^verbatim>\<open>inspect.signature\<close> makes of it: the exception it raises (as for a
  builtin without a signature) or the signature, that is the parameters in declaration
  order, each with its name, its kind, the text of its annotation and the
  \<^verbatim>\<open>repr\<close> of its default where it has them, and the return annotation, of which
  the model holds the text that the rendering of the signature uses, if there is an
  annotation, and the text that \<^verbatim>\<open>str\<close> gives for it.
\<close>

datatype pyobj = PyObj (truthy: bool) (repr: string)

record model_instance =
  class_name :: string
  class_doc :: "string option"
  class_annotations :: "(string \<times> string option) list"
  class_fields :: "(string \<times> pyobj) list"

datatype param_kind =
  POSITIONAL_ONLY | POSITIONAL_OR_KEYWORD | VAR_POSITIONAL | KEYWORD_ONLY | VAR_KEYWORD

record parameter =
  p_name :: string
  p_kind :: param_kind
  p_annotation :: "string option"
  p_default :: "string option"

record signature =
  sig_parameters :: "parameter list"
  sig_return_formatted :: "string option"
  sig_return_str :: string

record callable =
  fn_name :: "string option"
  fn_doc :: "string option"
  fn_signature :: "error + signature"

datatype entity = Model model_instance | Callable callable

record schema =
  schema_name :: string
  schema_description :: "string option"
  schema_signature :: string
  schema_output :: "string option"

text \<open>\<^verbatim>\<open>sep.join(parts)\<close>\<close>

fun join :: "string \<Rightarrow> string list \<Rightarrow> string" where
  "join sep [] = []"
| "join sep [p] = p"
| "join sep (p # q # ps) = p @ sep @ join sep (q # ps)"

definition signature_part :: "string \<Rightarrow> string \<Rightarrow> pyobj \<Rightarrow> string" where
  "signature_part field_name type_name default_value =
     (if truthy default_value
      then field_name @ '': '' @ type_name @ '' = '' @ repr default_value
      else field_name @ '': '' @ type_name)"

fun signature_parts ::
  "(string \<times> pyobj) list \<Rightarrow> (string \<times> string option) list \<Rightarrow> error + string list" where
  "signature_parts flds [] = Inr []"
| "signature_parts flds ((field_name, field_model) # rest) =
     (case map_of flds field_name of
        None \<Rightarrow> Inl KeyError
      | Some default_value \<Rightarrow>
          (case field_model of
             None \<Rightarrow> Inl AttributeError
           | Some type_name \<Rightarrow>
               (case signature_parts flds rest of
                  Inl e \<Rightarrow> Inl e
                | Inr parts \<Rightarrow>
                    Inr (signature_part field_name type_name default_value # parts))))"

text \<open>
  \<^verbatim>\<open>str(param)\<close> for a parameter of a signature: the name, then the annotation
  behind a colon, then the default behind an equals sign, which is set off by spaces
  only when there is an annotation; a star or two stars in front for the variadic
  kinds.
\<close>

definition str_parameter :: "parameter \<Rightarrow> string" where
  "str_parameter param =
     (let formatted = p_name param;
          formatted =
            (case p_annotation param of
               None \<Rightarrow> formatted
             | Some a \<Rightarrow> formatted @ '': '' @ a);
          formatted =
            (case p_default param of
               None \<Rightarrow> formatted
             | Some d \<Rightarrow>
                 (case p_annotation param of
                    Some a \<Rightarrow> formatted @ '' = '' @ d
                  | None \<Rightarrow> formatted @ ''='' @ d))
      in if p_kind param = VAR_POSITIONAL then ''*'' @ formatted
         else if p_kind param = VAR_KEYWORD then ''**'' @ formatted
         else formatted)"

text \<open>
  The loop of \<^verbatim>\<open>str(signature)\<close> over the parameters. It carries two flags: whether
  a slash is still owed to the positional-only parameters seen so far, and whether a
  lone star is still to be written in front of the first keyword-only parameter. The
  result is the list of the entries written from this point on, with the slash that is
  owed at the end.
\<close>

fun render_params :: "parameter list \<Rightarrow> bool \<Rightarrow> bool \<Rightarrow> string list" where
  "render_params [] render_pos_only_separator render_kw_only_separator =
     (if render_pos_only_separator then [''/''] else [])"
| "render_params (param # rest) render_pos_only_separator render_kw_only_separator =
     (let kind = p_kind param;
          slash =
            (if kind = POSITIONAL_ONLY then []
             else if render_pos_only_separator then [''/''] else []);
          pos_flag = (kind = POSITIONAL_ONLY);
          star =
            (if kind = VAR_POSITIONAL then []
             else if kind = KEYWORD_ONLY \<and> render_kw_only_separator then [''*''] else []);
          kw_flag =
            (if kind = VAR_POSITIONAL then False
             else if kind = KEYWORD_ONLY \<and> render_kw_only_separator then False
             else render_kw_only_separator)
      in slash @ star @ [str_parameter param] @ render_params rest pos_flag kw_flag)"

definition str_signature :: "signature \<Rightarrow> string" where
  "str_signature sg =
     ''('' @ join '', '' (render_params (sig_parameters sg) False True) @ '')'' @
     (case sig_return_formatted sg of None \<Rightarrow> [] | Some anno \<Rightarrow> '' -> '' @ anno)"

definition get_schema :: "entity \<Rightarrow> error + schema" where
  "get_schema item =
     (case item of
        Model m \<Rightarrow>
          (case signature_parts (class_fields m) (class_annotations m) of
             Inl e \<Rightarrow> Inl e
           | Inr parts \<Rightarrow>
               Inr \<lparr>schema_name = class_name m,
                    schema_description = class_doc m,
                    schema_signature = ''('' @ join '', '' parts @ '') -> str'',
                    schema_output = None\<rparr>)
      | Callable c \<Rightarrow>
          (case fn_name c of
             None \<Rightarrow> Inl AttributeError
           | Some nm \<Rightarrow>
               (case fn_signature c of
                  Inl e \<Rightarrow> Inl e
                | Inr sg \<Rightarrow>
                    Inr \<lparr>schema_name = nm,
                         schema_description =
                           Some (case fn_doc c of None \<Rightarrow> ''None'' | Some d \<Rightarrow> d),
                         schema_signature = str_signature sg,
                         schema_output = Some (sig_return_str sg)\<rparr>)))"

text \<open>
  \<^verbatim>\<open>_agenerate_dynamic_route\<close> from the point where the completion has arrived;
  its argument is the content of the first choice.
\<close>

definition agenerate_dynamic_route :: "pylib \<Rightarrow> string option \<Rightarrow> error + Route" where
  "agenerate_dynamic_route L output =
     (case output of
        None \<Rightarrow> Inl (Exception ''No output generated'')
      | Some out \<Rightarrow>
          if out = [] then Inl (Exception ''No output generated'')
          else
            (case parse_route_config out of
               Inl e \<Rightarrow> Inl e
             | Inr route_config \<Rightarrow>
                 (case is_valid L route_config of
                    Inl e \<Rightarrow> Inl e
                  | Inr ok \<Rightarrow>
                      if ok then
                        (case json_loads L route_config of
                           None \<Rightarrow> Inl JSONDecodeError
                         | Some v \<Rightarrow> Route_from_dict L v)
                      else Inl (Exception ''No config generated''))))"

section \<open>Route collections\<close>

record RouteConfig =
  routes :: "Route list"

text \<open>
  \<^verbatim>\<open>os.path.splitext\<close> on POSIX paths: the extension starts at the last dot of
  the last path component, unless only dots precede it there.
\<close>

definition rfind :: "char \<Rightarrow> string \<Rightarrow> int" where
  "rfind c p =
     (case find (\<lambda>i. p ! i = c) (rev [0..<length p]) of
        Some i \<Rightarrow> int i
      | None \<Rightarrow> - 1)"

definition splitext :: "string \<Rightarrow> string \<times> string" where
  "splitext p =
     (let sepIndex = rfind CHR ''/'' p; dotIndex = rfind CHR ''.'' p
      in if dotIndex > sepIndex \<and>
            list_ex (\<lambda>c. c \<noteq> CHR ''.'')
              (take (nat (dotIndex - (sepIndex + 1))) (drop (nat (sepIndex + 1)) p))
         then (take (nat dotIndex) p, drop (nat dotIndex) p)
         else (p, []))"

text \<open>Iterating over a value, as a comprehension does.\<close>

fun py_iter :: "json \<Rightarrow> error + json list" where
  "py_iter (JList xs) = Inr xs"
| "py_iter (JDict kvs) = Inr (map (\<lambda>kv. JStr (fst kv)) kvs)"
| "py_iter (JStr s) = Inr (map (\<lambda>c. JStr [c]) s)"
| "py_iter JNull = Inl TypeError"
| "py_iter (JBool b) = Inl TypeError"
| "py_iter (JInt i) = Inl TypeError"
| "py_iter (JFloat f) = Inl TypeError"

text \<open>\<^verbatim>\<open>[Route.from_dict(route) for route in routes]\<close> on the items.\<close>

fun from_dict_all :: "pylib \<Rightarrow> json list \<Rightarrow> error + Route list" where
  "from_dict_all L [] = Inr []"
| "from_dict_all L (route # rest) =
     (case Route_from_dict L route of
        Inl e \<Rightarrow> Inl e
      | Inr r \<Rightarrow>
          (case from_dict_all L rest of
             Inl e \<Rightarrow> Inl e
           | Inr rs \<Rightarrow> Inr (r # rs)))"

text \<open>
  The file system maps a path to the text of the file. Opening a missing file for
  reading fails. Whether a path can be opened for writing depends on directories,
  permissions and the form of the path, which the map of the files does not hold; it
  is given by a function that yields the error with which \<^verbatim>\<open>open(path, "w")\<close>
  fails, if it fails. Opening for writing empties the file before anything is written.
\<close>

type_synonym filesystem = "string \<rightharpoonup> string"

type_synonym open_write = "string \<Rightarrow> error option"

definition load_by_ext :: "pylib \<Rightarrow> string \<Rightarrow> string \<Rightarrow> error + json" where
  "load_by_ext L ext text =
     (if ext = ''.json'' then
        (case json_loads L text of None \<Rightarrow> Inl JSONDecodeError | Some v \<Rightarrow> Inr v)
      else if ext \<in> set [''.yaml'', ''.yml''] then
        (case yaml_safe_load L text of None \<Rightarrow> Inl YAMLError | Some v \<Rightarrow> Inr v)
      else Inl UnsupportedFileTypeError)"

definition RouteConfig_from_file :: "pylib \<Rightarrow> filesystem \<Rightarrow> string \<Rightarrow> error + RouteConfig" where
  "RouteConfig_from_file L fs path =
     (let ext = snd (splitext path)
      in case fs path of
           None \<Rightarrow> Inl FileNotFoundError
         | Some text \<Rightarrow>
             (case load_by_ext L ext text of
                Inl e \<Rightarrow> Inl e
              | Inr rts \<Rightarrow>
                  (case is_valid L (json_dumps L rts) of
                     Inl e \<Rightarrow> Inl e
                   | Inr ok \<Rightarrow>
                       if ok then
                         (case py_iter rts of
                            Inl e \<Rightarrow> Inl e
                          | Inr items \<Rightarrow>
                              (case from_dict_all L items of
                                 Inl e \<Rightarrow> Inl e
                               | Inr rs \<Rightarrow> Inr \<lparr>routes = rs\<rparr>))
                       else Inl InvalidConfigError)))"

definition RouteConfig_to_dict :: "RouteConfig \<Rightarrow> json" where
  "RouteConfig_to_dict rc = JList (map Route_to_dict (routes rc))"

definition RouteConfig_to_file ::
  "pylib \<Rightarrow> open_write \<Rightarrow> RouteConfig \<Rightarrow> string \<Rightarrow> filesystem \<Rightarrow>
   (error + unit) \<times> filesystem" where
  "RouteConfig_to_file L open_w rc path fs =
     (let ext = snd (splitext path)
      in case open_w path of
           Some e \<Rightarrow> (Inl e, fs)
         | None \<Rightarrow>
             if ext = ''.json'' then
               (Inr (), fs(path \<mapsto> json_dumps L (RouteConfig_to_dict rc)))
             else if ext \<in> set [''.yaml'', ''.yml''] then
               (Inr (), fs(path \<mapsto> yaml_safe_dump L (RouteConfig_to_dict rc)))
             else (Inl UnsupportedFileTypeError, fs(path \<mapsto> [])))"

definition RouteConfig_add :: "RouteConfig \<Rightarrow> Route \<Rightarrow> RouteConfig" where
  "RouteConfig_add rc route = rc\<lparr>routes := routes rc @ [route]\<rparr>"

fun get_loop :: "Route list \<Rightarrow> string \<Rightarrow> error + Route" where
  "get_loop [] nm = Inl (RouteNotFoundError nm)"
| "get_loop (route # rest) nm = (if name route = nm then Inr route else get_loop rest nm)"

definition RouteConfig_get :: "RouteConfig \<Rightarrow> string \<Rightarrow> error + Route" where
  "RouteConfig_get rc nm = get_loop (routes rc) nm"

definition RouteConfig_remove :: "RouteConfig \<Rightarrow> string \<Rightarrow> RouteConfig" where
  "RouteConfig_remove rc nm =
     (if nm \<notin> set (map name (routes rc)) then rc
      else rc\<lparr>routes := filter (\<lambda>route. name route \<noteq> nm) (routes rc)\<rparr>)"

text \<open>
  Python's \<^verbatim>\<open>==\<close> on the values that the module writes and reads back: two
  mappings are equal when they hold the same entries, in whatever order; lists are
  compared element by element.
\<close>

fun py_eq :: "json \<Rightarrow> json \<Rightarrow> bool" where
  "py_eq (JDict a) (JDict b) =
     (distinct (map fst a) \<and> distinct (map fst b) \<and> set a = set b)"
| "py_eq (JList xs) (JList ys) = list_all2 py_eq xs ys"
| "py_eq x y = (x = y)"

section \<open>Notions used to state properties\<close>

text \<open>The number of positions of \<open>s\<close> at which \<open>t\<close> occurs.\<close>

definition count_occurrences :: "string \<Rightarrow> string \<Rightarrow> nat" where
  "count_occurrences t s = length (filter (\<lambda>i. prefix t (drop i s)) [0..<Suc (length s)])"

text \<open>
  The names occur in \<open>s\<close> one after the other, without overlap: each is searched
  for behind the leftmost occurrence of its predecessor.
\<close>

fun occur_in_order :: "string list \<Rightarrow> string \<Rightarrow> bool" where
  "occur_in_order [] s = True"
| "occur_in_order (n # ns) s =
     (case find_sub n s of
        None \<Rightarrow> False
      | Some (before, rest) \<Rightarrow> occur_in_order ns rest)"

text \<open>
  A finite excerpt of the codecs, given by four tables: what \<^verbatim>\<open>json.dumps\<close>
  writes for a value, what \<^verbatim>\<open>json.loads\<close> reads from a text, and the same for
  YAML. Outside its tables the excerpt writes the empty text and reads nothing; it
  coerces nothing.
\<close>

definition excerpt_lib ::
  "(json \<times> string) list \<Rightarrow> (string \<times> json) list \<Rightarrow>
   (json \<times> string) list \<Rightarrow> (string \<times> json) list \<Rightarrow> pylib" where
  "excerpt_lib jdump jload ydump yload =
     \<lparr>json_loads = map_of jload,
      json_dumps = (\<lambda>v. case map_of jdump v of Some s \<Rightarrow> s | None \<Rightarrow> []),
      yaml_safe_load = map_of yload,
      yaml_safe_dump = (\<lambda>v. case map_of ydump v of Some s \<Rightarrow> s | None \<Rightarrow> []),
      coerce_str = (\<lambda>v. None)\<rparr>"

section \<open>Sample data\<close>

text \<open>
  A collection of three routes, two of them with the same name, together with the texts
  that the codecs write for it. The JSON codec keeps the order of the keys; the YAML
  codec writes the keys of a mapping in sorted order, so reading the YAML text back
  yields mappings with the keys in that order.
\<close>

definition sample_config :: RouteConfig where
  "sample_config =
     \<lparr>routes =
        [\<lparr>name = ''greet'', utterances = [''hi'', ''hello''], description = None\<rparr>,
         \<lparr>name = ''bye'', utterances = [''goodbye''], description = Some ''farewell''\<rparr>,
         \<lparr>name = ''greet'', utterances = [''hey''], description = None\<rparr>]\<rparr>"

definition sample_json_text :: string where
  \<open>sample_json_text =
     ''[{"name": "greet", "utterances": ["hi", "hello"], "description": null}, '' @
     ''{"name": "bye", "utterances": ["goodbye"], "description": "farewell"}, '' @
     ''{"name": "greet", "utterances": ["hey"], "description": null}]''\<close>

definition sample_yaml_text :: string where
  "sample_yaml_text =
     ''- description: null\<newline>  name: greet\<newline>  utterances:\<newline>  - hi\<newline>  - hello\<newline>'' @
     ''- description: farewell\<newline>  name: bye\<newline>  utterances:\<newline>  - goodbye\<newline>'' @
     ''- description: null\<newline>  name: greet\<newline>  utterances:\<newline>  - hey\<newline>''"

definition sample_sorted_value :: json where
  "sample_sorted_value =
     JList
       [JDict [(''description'', JNull), (''name'', JStr ''greet''),
               (''utterances'', JList [JStr ''hi'', JStr ''hello''])],
        JDict [(''description'', JStr ''farewell''), (''name'', JStr ''bye''),
               (''utterances'', JList [JStr ''goodbye''])],
        JDict [(''description'', JNull), (''name'', JStr ''greet''),
               (''utterances'', JList [JStr ''hey''])]]"

definition sample_sorted_json_text :: string where
  \<open>sample_sorted_json_text =
     ''[{"description": null, "name": "greet", "utterances": ["hi", "hello"]}, '' @
     ''{"description": "farewell", "name": "bye", "utterances": ["goodbye"]}, '' @
     ''{"description": null, "name": "greet", "utterances": ["hey"]}]''\<close>

definition sample_lib :: pylib where
  "sample_lib =
     excerpt_lib
       [(RouteConfig_to_dict sample_config, sample_json_text),
        (sample_sorted_value, sample_sorted_json_text)]
       [(sample_json_text, RouteConfig_to_dict sample_config),
        (sample_sorted_json_text, sample_sorted_value)]
       [(RouteConfig_to_dict sample_config, sample_yaml_text)]
       [(sample_yaml_text, sample_sorted_value)]"

text \<open>
  A working directory in which files can be written, while the empty path and the root
  directory cannot be opened for writing, and nothing can be written in a directory
  \<^verbatim>\<open>nodir\<close> that does not exist.
\<close>

definition sample_open_write :: open_write where
  "sample_open_write path =
     (if path = [] then Some FileNotFoundError
      else if path = ''/'' then Some IsADirectoryError
      else if prefix ''nodir/'' path then Some FileNotFoundError
      else None)"

text \<open>
  A function with parameters of every kind, as reflection reports it for
  \<^verbatim>\<open>def search(query, /, city: str, limit: int = 10, *tags, exact=False, **options) -> str\<close>.
\<close>

definition sample_callable :: callable where
  "sample_callable =
     \<lparr>fn_name = Some ''search'',
      fn_doc = Some ''Search for something.'',
      fn_signature = Inr
        \<lparr>sig_parameters =
           [\<lparr>p_name = ''query'', p_kind = POSITIONAL_ONLY,
              p_annotation = None, p_default = None\<rparr>,
            \<lparr>p_name = ''city'', p_kind = POSITIONAL_OR_KEYWORD,
              p_annotation = Some ''str'', p_default = None\<rparr>,
            \<lparr>p_name = ''limit'', p_kind = POSITIONAL_OR_KEYWORD,
              p_annotation = Some ''int'', p_default = Some ''10''\<rparr>,
            \<lparr>p_name = ''tags'', p_kind = VAR_POSITIONAL,
              p_annotation = None, p_default = None\<rparr>,
            \<lparr>p_name = ''exact'', p_kind = KEYWORD_ONLY,
              p_annotation = None, p_default = Some ''False''\<rparr>,
            \<lparr>p_name = ''options'', p_kind = VAR_KEYWORD,
              p_annotation = None, p_default = None\<rparr>],
         sig_return_formatted = Some ''str'',
         sig_return_str = ''<class 'str'>''\<rparr>\<rparr>"

text \<open>
  Payloads at the edge of the validator's contract, with their JSON texts: a single
  mapping with both keys, a mapping without \<^verbatim>\<open>utterances\<close>, a string, a list
  whose only item is a list of strings, and a number.
\<close>

definition single_route_value :: json where
  "single_route_value = JDict [(''name'', JStr ''x''), (''utterances'', JList [JStr ''a''])]"

definition single_route_text :: string where
  \<open>single_route_text = ''{"name": "x", "utterances": ["a"]}''\<close>

definition name_only_text :: string where
  \<open>name_only_text = ''{"name": "x"}''\<close>

definition string_payload_text :: string where
  \<open>string_payload_text = ''"name utterances"''\<close>

definition nested_list_text :: string where
  \<open>nested_list_text = ''[["name", "utterances"]]''\<close>

definition edge_lib :: pylib where
  "edge_lib =
     excerpt_lib
       [(single_route_value, single_route_text),
        (JDict [(''name'', JStr ''x'')], name_only_text),
        (JStr ''name utterances'', string_payload_text),
        (JList [JList [JStr ''name'', JStr ''utterances'']], nested_list_text),
        (JInt 5, ''5'')]
       [(single_route_text, single_route_value),
        (name_only_text, JDict [(''name'', JStr ''x'')]),
        (string_payload_text, JStr ''name utterances''),
        (nested_list_text, JList [JList [JStr ''name'', JStr ''utterances'']]),
        (''5'', JInt 5)]
       [] []"

section \<open>Facts about the search for the tags\<close>

lemma find_sub_sound: "find_sub t s = Some (a, b) \<Longrightarrow> s = a @ t @ b"
proof (induction s arbitrary: a)
  case Nil
  then show ?case by (simp split: if_splits)
next
  case (Cons c cs)
  show ?case
  proof (cases "prefix t (c # cs)")
    case True
    with Cons.prems have "a = []" "b = drop (length t) (c # cs)" by simp_all
    moreover from True obtain zs where "c # cs = t @ zs" by (auto simp: prefix_def)
    ultimately show ?thesis by simp
  next
    case False
    with Cons.prems obtain a' where "find_sub t cs = Some (a', b)" "a = c # a'"
      by auto
    with Cons.IH show ?thesis by simp
  qed
qed

lemma find_sub_None: "find_sub t s = None \<Longrightarrow> \<not> sublist t s"
  by (induction s) (auto simp: sublist_Cons_right split: if_splits)

lemma find_sub_complete: "sublist t s \<Longrightarrow> find_sub t s \<noteq> None"
  using find_sub_None by blast

lemma search_config_sound:
  "search_config s = Some content \<Longrightarrow>
     \<exists>a c. s = a @ ''<config>'' @ content @ ''</config>'' @ c"
proof (induction s)
  case Nil
  then show ?case by simp
next
  case (Cons x xs)
  show ?case
  proof (cases "prefix ''<config>'' (x # xs) \<and>
      find_sub ''</config>'' (drop (length ''<config>'') (x # xs)) \<noteq> None")
    case True
    then obtain zs where zs: "x # xs = ''<config>'' @ zs" by (auto simp: prefix_def)
    from True obtain r where
      "find_sub ''</config>'' (drop (length ''<config>'') (x # xs)) = Some (content, r)"
      using Cons.prems by (auto split: option.splits)
    hence "find_sub ''</config>'' zs = Some (content, r)" using zs by simp
    from find_sub_sound [OF this] have "zs = content @ ''</config>'' @ r" .
    with zs have "x # xs = [] @ ''<config>'' @ content @ ''</config>'' @ r" by simp
    then show ?thesis by blast
  next
    case False
    with Cons.prems have "search_config xs = Some content"
      by (auto split: if_splits option.splits)
    from Cons.IH [OF this] obtain a c where
      "xs = a @ ''<config>'' @ content @ ''</config>'' @ c" by blast
    hence "x # xs = (x # a) @ ''<config>'' @ content @ ''</config>'' @ c" by simp
    then show ?thesis by blast
  qed
qed

lemma search_config_complete:
  "search_config (a @ ''<config>'' @ b @ ''</config>'' @ c) \<noteq> None"
proof (induction a)
  case Nil
  have "sublist ''</config>'' (b @ ''</config>'' @ c)" by (rule sublist_appendI)
  then have "find_sub ''</config>'' (b @ ''</config>'' @ c) \<noteq> None"
    by (rule find_sub_complete)
  then show ?case by auto
next
  case (Cons x a)
  then show ?case by (auto split: option.splits)
qed

lemma tag_pair_iff:
  "(\<exists>a b c. s = a @ ''<config>'' @ b @ ''</config>'' @ c) \<longleftrightarrow> search_config s \<noteq> None"
  using search_config_sound search_config_complete by fastforce

text \<open>
  A tag whose first character does not come back later in the tag cannot overlap with
  itself, so behind a text that does not contain it the tag is found where it was put.
\<close>

lemma find_sub_append_self:
  assumes "t \<noteq> []" "hd t \<notin> set (tl t)" "\<not> sublist t s"
  shows "find_sub t (s @ t) = Some (s, [])"
  using assms(3)
proof (induction s)
  case Nil
  with assms(1) show ?case by (cases t) auto
next
  case (Cons x xs)
  have "\<not> prefix t ((x # xs) @ t)"
  proof
    assume "prefix t ((x # xs) @ t)"
    then have "prefix t (x # xs) \<or> (\<exists>us. t = (x # xs) @ us \<and> prefix us t)"
      unfolding prefix_append .
    then consider "prefix t (x # xs)" | us where "t = (x # xs) @ us" "prefix us t"
      by blast
    then show False
    proof cases
      case 1
      then have "sublist t (x # xs)" by (auto simp: sublist_Cons_right)
      with Cons.prems show False by simp
    next
      case 2
      show False
      proof (cases us)
        case Nil
        with 2 have "sublist t (x # xs)" by simp
        with Cons.prems show False by simp
      next
        case (Cons u us')
        with 2(2) assms(1) have "hd t = u" by (cases t) auto
        moreover from 2(1) Cons have "u \<in> set (tl t)" by simp
        ultimately show False using assms(2) by simp
      qed
    qed
  qed
  moreover have "\<not> sublist t xs" using Cons.prems by (auto simp: sublist_Cons_right)
  ultimately show ?case using Cons.IH by simp
qed

lemma search_config_wrap:
  assumes "\<not> sublist ''</config>'' s"
  shows "search_config (''<config>'' @ s @ ''</config>'') = Some s"
proof -
  have "find_sub ''</config>'' (s @ ''</config>'') = Some (s, [])"
    by (rule find_sub_append_self) (use assms in simp_all)
  then show ?thesis by simp
qed

section \<open>Extraction of the payload\<close>

text \<open>
  Claim C3. For every string \<open>s\<close> that contains neither \<^verbatim>\<open><config>\<close> nor
  \<^verbatim>\<open></config>\<close>, extracting from \<^verbatim>\<open><config>\<close> followed by \<open>s\<close> followed by
  \<^verbatim>\<open></config>\<close> succeeds and returns \<open>s\<close> without its leading and trailing
  whitespace.
\<close>

theorem parse_route_config_roundtrip:
  assumes "\<not> sublist ''<config>'' s" and "\<not> sublist ''</config>'' s"
  shows "parse_route_config (''<config>'' @ s @ ''</config>'') = Inr (strip s)"
  using search_config_wrap [OF assms(2)] by (simp add: parse_route_config_def)

theorem parse_route_config_roundtrip_witness:
  "\<not> sublist ''<config>'' '' {a} '' \<and> \<not> sublist ''</config>'' '' {a} '' \<and>
   parse_route_config (''<config>'' @ '' {a} '' @ ''</config>'') = Inr ''{a}''"
proof -
  have h1: "\<not> sublist ''<config>'' '' {a} ''" by code_simp
  have h2: "\<not> sublist ''</config>'' '' {a} ''" by code_simp
  have s: "strip '' {a} '' = ''{a}''" by code_simp
  from parse_route_config_roundtrip [OF h1 h2] s h1 h2 show ?thesis by simp
qed

text \<open>
  Claim C7. On every text in which no \<^verbatim>\<open><config>\<close> is followed, at whatever
  distance, by a \<^verbatim>\<open></config>\<close>, the extraction fails with the error that the
  specification calls \<open>MissingConfigTagsError\<close> (in the code a \<^verbatim>\<open>ValueError\<close>
  with the message about the missing tags); it returns no value.
\<close>

theorem parse_route_config_missing_tags:
  assumes "\<not> (\<exists>a b c. config = a @ ''<config>'' @ b @ ''</config>'' @ c)"
  shows "parse_route_config config = Inl MissingConfigTagsError"
proof -
  from assms have "search_config config = None"
    unfolding tag_pair_iff by simp
  then show ?thesis by (simp add: parse_route_config_def)
qed

theorem parse_route_config_missing_tags_witness:
  "\<not> (\<exists>a b c. ''<config> {} </conf>'' = a @ ''<config>'' @ b @ ''</config>'' @ c) \<and>
   parse_route_config ''<config> {} </conf>'' = Inl MissingConfigTagsError"
proof -
  have "search_config ''<config> {} </conf>'' = None" by code_simp
  then have h: "\<not> (\<exists>a b c. ''<config> {} </conf>'' = a @ ''<config>'' @ b @ ''</config>'' @ c)"
    unfolding tag_pair_iff by simp
  from h parse_route_config_missing_tags [OF h] show ?thesis by blast
qed

section \<open>Facts about the validator and the route payload\<close>

lemma missing_keys_JDict:
  "missing_keys required_keys (JDict kvs) =
     Inr (filter (\<lambda>key. key \<notin> fst ` set kvs) required_keys)"
  by (simp add: required_keys_def)

lemma is_valid_JDict:
  assumes "json_loads L s = Some (JDict kvs)"
  shows "is_valid L s = Inr (''name'' \<in> fst ` set kvs \<and> ''utterances'' \<in> fst ` set kvs)"
  using assms by (simp add: is_valid_def missing_keys_JDict) (simp add: required_keys_def)

lemma those_map_JStr: "those (map (validate_str L \<circ> JStr) us) = Some us"
  by (induction us) (simp_all add: validate_str_def)

lemma py_eq_Route_to_dict:
  assumes "py_eq x (Route_to_dict r)"
  obtains kvs where "x = JDict kvs" "distinct (map fst kvs)"
    "set kvs = {(''name'', JStr (name r)), (''utterances'', JList (map JStr (utterances r))),
                (''description'', (case description r of None \<Rightarrow> JNull | Some d \<Rightarrow> JStr d))}"
  using assms by (cases x) (auto simp: Route_to_dict_def)

lemma py_eq_route_keys:
  assumes "py_eq x (Route_to_dict r)"
  shows "missing_keys required_keys x = Inr []"
proof -
  from assms obtain kvs where x: "x = JDict kvs" and
    s: "set kvs = {(''name'', JStr (name r)), (''utterances'', JList (map JStr (utterances r))),
                (''description'', (case description r of None \<Rightarrow> JNull | Some d \<Rightarrow> JStr d))}"
    by (rule py_eq_Route_to_dict)
  have "''name'' \<in> fst ` set kvs" "''utterances'' \<in> fst ` set kvs"
    unfolding s by simp_all
  then show ?thesis unfolding x missing_keys_JDict by (simp add: required_keys_def)
qed

lemma py_eq_route_from_dict:
  assumes "py_eq x (Route_to_dict r)"
  shows "Route_from_dict L x = Inr r"
proof -
  let ?d = "case description r of None \<Rightarrow> JNull | Some d \<Rightarrow> JStr d"
  from assms obtain kvs where x: "x = JDict kvs" and d: "distinct (map fst kvs)" and
    s: "set kvs = {(''name'', JStr (name r)), (''utterances'', JList (map JStr (utterances r))),
                (''description'', ?d)}"
    by (rule py_eq_Route_to_dict)
  have n: "map_of kvs ''name'' = Some (JStr (name r))"
    using d s by (intro map_of_is_SomeI) simp_all
  have u: "map_of kvs ''utterances'' = Some (JList (map JStr (utterances r)))"
    using d s by (intro map_of_is_SomeI) simp_all
  have e: "map_of kvs ''description'' = Some ?d"
    using d s by (intro map_of_is_SomeI) simp_all
  show ?thesis
    unfolding x
    by (cases "description r")
       (simp_all add: Route_from_dict_def n u e validate_str_def validate_str_list_def
          validate_opt_str_def those_map_JStr)
qed

lemma py_eq_trans_route:
  assumes "py_eq w x" and "py_eq x (Route_to_dict r)"
  shows "py_eq w (Route_to_dict r)"
proof -
  from assms(2) obtain kvs where x: "x = JDict kvs" by (rule py_eq_Route_to_dict)
  from assms(1) obtain kvs' where "w = JDict kvs'" unfolding x by (cases w) auto
  with assms x show ?thesis by (auto simp: Route_to_dict_def)
qed

lemma py_eq_RouteConfig_to_dict:
  "py_eq v (RouteConfig_to_dict rc) \<longleftrightarrow>
     (\<exists>items. v = JList items \<and> list_all2 (\<lambda>x r. py_eq x (Route_to_dict r)) items (routes rc))"
  by (cases v) (auto simp: RouteConfig_to_dict_def list_all2_map2)

lemma py_eq_trans_config:
  assumes "py_eq w v" and "py_eq v (RouteConfig_to_dict rc)"
  shows "py_eq w (RouteConfig_to_dict rc)"
proof -
  from assms(2) obtain items where v: "v = JList items" and
    items: "list_all2 (\<lambda>x r. py_eq x (Route_to_dict r)) items (routes rc)"
    unfolding py_eq_RouteConfig_to_dict by blast
  from assms(1) obtain ws where w: "w = JList ws" and ws: "list_all2 py_eq ws items"
    unfolding v by (cases w) auto
  have "list_all2 (\<lambda>x r. py_eq x (Route_to_dict r)) ws (routes rc)"
    using ws items by (rule list_all2_trans [rotated]) (rule py_eq_trans_route)
  with w show ?thesis unfolding py_eq_RouteConfig_to_dict by blast
qed

lemma check_items_routes:
  "list_all2 (\<lambda>x r. py_eq x (Route_to_dict r)) items rs \<Longrightarrow> check_items items = Inr True"
  by (induction rule: list_all2_induct) (simp_all add: py_eq_route_keys)

lemma from_dict_all_routes:
  "list_all2 (\<lambda>x r. py_eq x (Route_to_dict r)) items rs \<Longrightarrow> from_dict_all L items = Inr rs"
  by (induction rule: list_all2_induct) (simp_all add: py_eq_route_from_dict)

lemma is_valid_route_payload:
  assumes "json_loads L s = Some v" and "py_eq v (RouteConfig_to_dict rc)"
  shows "is_valid L s = Inr True"
  using assms unfolding py_eq_RouteConfig_to_dict
  by (auto simp: is_valid_def check_items_routes)

section \<open>Saving and loading\<close>

text \<open>
  Claim C6. Saving a collection of routes to a \<^verbatim>\<open>.json\<close> file and loading that
  file yields the same collection: the same routes in the same order, each with its
  name, utterances and description; the same holds for a \<^verbatim>\<open>.yaml\<close> or
  \<^verbatim>\<open>.yml\<close> file. The path must be one that can be opened for writing. The
  codecs are outside the module, so their part is a premise:
  the codec of the file reads back a value \<open>d'\<close> equal to the written one, and the JSON
  codec, through which the validator sends \<open>d'\<close> once more, reads back a value
  \<open>d''\<close> equal to \<open>d'\<close>, where equal is Python's equality, which ignores the order
  of the keys of a mapping.
\<close>

theorem RouteConfig_file_roundtrip:
  assumes writable: "open_w path = None"
    and file_rt:
      "snd (splitext path) = ''.json'' \<and>
         json_loads L (json_dumps L (RouteConfig_to_dict rc)) = Some d' \<or>
       snd (splitext path) \<in> {''.yaml'', ''.yml''} \<and>
         yaml_safe_load L (yaml_safe_dump L (RouteConfig_to_dict rc)) = Some d'"
    and file_eq: "py_eq d' (RouteConfig_to_dict rc)"
    and check_rt: "json_loads L (json_dumps L d') = Some d''"
    and check_eq: "py_eq d'' d'"
  shows "fst (RouteConfig_to_file L open_w rc path fs) = Inr () \<and>
         RouteConfig_from_file L (snd (RouteConfig_to_file L open_w rc path fs)) path = Inr rc"
proof -
  from file_rt writable obtain content where
    saved: "RouteConfig_to_file L open_w rc path fs = (Inr (), fs(path \<mapsto> content))" and
    loaded: "load_by_ext L (snd (splitext path)) content = Inr d'"
    by (auto simp: RouteConfig_to_file_def load_by_ext_def Let_def)
  have "py_eq d'' (RouteConfig_to_dict rc)"
    using check_eq file_eq by (rule py_eq_trans_config)
  with check_rt have valid: "is_valid L (json_dumps L d') = Inr True"
    by (rule is_valid_route_payload)
  from file_eq obtain items where d': "d' = JList items" and
    items: "list_all2 (\<lambda>x r. py_eq x (Route_to_dict r)) items (routes rc)"
    unfolding py_eq_RouteConfig_to_dict by blast
  have "RouteConfig_from_file L (fs(path \<mapsto> content)) path = Inr \<lparr>routes = routes rc\<rparr>"
    using valid by (simp add: RouteConfig_from_file_def loaded d' from_dict_all_routes [OF items])
  with saved show ?thesis by simp
qed

theorem RouteConfig_file_roundtrip_witness:
  "sample_open_write ''routes.json'' = None \<and> sample_open_write ''routes.yaml'' = None \<and>
   RouteConfig_from_file sample_lib
     (snd (RouteConfig_to_file sample_lib sample_open_write sample_config ''routes.json''
        Map.empty))
     ''routes.json'' = Inr sample_config \<and>
   RouteConfig_from_file sample_lib
     (snd (RouteConfig_to_file sample_lib sample_open_write sample_config ''routes.yaml''
        Map.empty))
     ''routes.yaml'' = Inr sample_config"
proof -
  let ?d = "RouteConfig_to_dict sample_config"
  have w1: "sample_open_write ''routes.json'' = None" by code_simp
  have w2: "sample_open_write ''routes.yaml'' = None" by code_simp
  have j: "snd (splitext ''routes.json'') = ''.json'' \<and>
             json_loads sample_lib (json_dumps sample_lib ?d) = Some ?d \<or>
           snd (splitext ''routes.json'') \<in> {''.yaml'', ''.yml''} \<and>
             yaml_safe_load sample_lib (yaml_safe_dump sample_lib ?d) = Some ?d"
    by code_simp
  have y: "snd (splitext ''routes.yaml'') = ''.json'' \<and>
             json_loads sample_lib (json_dumps sample_lib ?d) = Some sample_sorted_value \<or>
           snd (splitext ''routes.yaml'') \<in> {''.yaml'', ''.yml''} \<and>
             yaml_safe_load sample_lib (yaml_safe_dump sample_lib ?d) = Some sample_sorted_value"
    by code_simp
  have e1: "py_eq ?d ?d" by code_simp
  have e2: "py_eq sample_sorted_value ?d" by code_simp
  have e3: "py_eq sample_sorted_value sample_sorted_value" by code_simp
  have r1: "json_loads sample_lib (json_dumps sample_lib ?d) = Some ?d" by code_simp
  have r2: "json_loads sample_lib (json_dumps sample_lib sample_sorted_value) =
      Some sample_sorted_value"
    by code_simp
  from w1 w2
    RouteConfig_file_roundtrip
      [where open_w = sample_open_write and path = "''routes.json''", OF w1 j e1 r1 e1]
    RouteConfig_file_roundtrip
      [where open_w = sample_open_write and path = "''routes.yaml''", OF w2 y e2 r2 e3]
  show ?thesis by blast
qed

section \<open>Looking up and removing routes\<close>

text \<open>
  Claim C8. When no route of the collection has the given name, \<^verbatim>\<open>get\<close> fails
  with the error that the specification calls \<open>RouteNotFoundError\<close> (in the code an
  \<^verbatim>\<open>Exception\<close> with the message that the route was not found), while
  \<^verbatim>\<open>remove\<close> returns and leaves the collection as it was. When some route has
  the name, \<^verbatim>\<open>get\<close> returns the first such route and \<^verbatim>\<open>remove\<close> keeps
  exactly the routes with another name, so that none with the name is left.
\<close>

theorem RouteConfig_get_remove:
  "(nm \<notin> set (map name (routes rc)) \<longrightarrow>
      RouteConfig_get rc nm = Inl (RouteNotFoundError nm) \<and> RouteConfig_remove rc nm = rc) \<and>
   (nm \<in> set (map name (routes rc)) \<longrightarrow>
      (\<exists>before r after. routes rc = before @ r # after \<and> name r = nm \<and>
         nm \<notin> set (map name before) \<and> RouteConfig_get rc nm = Inr r) \<and>
      routes (RouteConfig_remove rc nm) = filter (\<lambda>r. name r \<noteq> nm) (routes rc) \<and>
      nm \<notin> set (map name (routes (RouteConfig_remove rc nm))))"
proof -
  have absent: "nm \<notin> set (map name rs) \<Longrightarrow> get_loop rs nm = Inl (RouteNotFoundError nm)" for rs
    by (induction rs) auto
  have present: "nm \<in> set (map name rs) \<Longrightarrow>
      \<exists>before r after. rs = before @ r # after \<and> name r = nm \<and>
         nm \<notin> set (map name before) \<and> get_loop rs nm = Inr r" for rs
  proof (induction rs)
    case Nil
    then show ?case by simp
  next
    case (Cons x rs)
    show ?case
    proof (cases "name x = nm")
      case True
      then have "x # rs = [] @ x # rs \<and> name x = nm \<and> nm \<notin> set (map name []) \<and>
          get_loop (x # rs) nm = Inr x" by simp
      then show ?thesis by blast
    next
      case False
      with Cons.prems have "nm \<in> set (map name rs)" by auto
      from Cons.IH [OF this] obtain before r after where
        "rs = before @ r # after" "name r = nm" "nm \<notin> set (map name before)"
        "get_loop rs nm = Inr r" by blast
      with False have "x # rs = (x # before) @ r # after \<and> name r = nm \<and>
          nm \<notin> set (map name (x # before)) \<and> get_loop (x # rs) nm = Inr r" by auto
      then show ?thesis by blast
    qed
  qed
  show ?thesis
    using absent [of "routes rc"] present [of "routes rc"]
    by (auto simp: RouteConfig_get_def RouteConfig_remove_def)
qed

theorem RouteConfig_get_remove_witness:
  "RouteConfig_get \<lparr>routes = []\<rparr> ''missing'' = Inl (RouteNotFoundError ''missing'') \<and>
   RouteConfig_remove \<lparr>routes = []\<rparr> ''missing'' = \<lparr>routes = []\<rparr> \<and>
   RouteConfig_get sample_config ''greet'' =
     Inr \<lparr>name = ''greet'', utterances = [''hi'', ''hello''], description = None\<rparr> \<and>
   routes (RouteConfig_remove sample_config ''greet'') =
     [\<lparr>name = ''bye'', utterances = [''goodbye''], description = Some ''farewell''\<rparr>]"
  using RouteConfig_get_remove [of "''missing''" "\<lparr>routes = []\<rparr>"]
    RouteConfig_get_remove [of "''greet''" sample_config]
  by (simp add: sample_config_def RouteConfig_get_def)

section \<open>File types and the shape of a file's payload\<close>

text \<open>
  Claim C9. When the extension of the path is none of \<^verbatim>\<open>.json\<close>,
  \<^verbatim>\<open>.yaml\<close> and \<^verbatim>\<open>.yml\<close>, loading an existing file fails with the error
  that the specification calls \<open>UnsupportedFileTypeError\<close> (in the code a
  \<^verbatim>\<open>ValueError\<close> with the message about the unsupported file type), whatever the
  file contains, and saving to a path that can be opened for writing fails with the same
  error, leaving the file empty. The file is opened before the extension is looked at,
  so a path that cannot be opened fails with the error of opening it.
\<close>

theorem unsupported_file_type:
  assumes "snd (splitext path) \<notin> {''.json'', ''.yaml'', ''.yml''}"
  shows "(fs path = Some content \<longrightarrow>
           RouteConfig_from_file L fs path = Inl UnsupportedFileTypeError) \<and>
         (open_w path = None \<longrightarrow>
           RouteConfig_to_file L open_w rc path fs =
             (Inl UnsupportedFileTypeError, fs(path \<mapsto> []))) \<and>
         (open_w path = Some e \<longrightarrow>
           RouteConfig_to_file L open_w rc path fs = (Inl e, fs))"
  using assms
  by (simp add: RouteConfig_from_file_def RouteConfig_to_file_def load_by_ext_def Let_def)

theorem unsupported_file_type_witness:
  "snd (splitext ''routes.txt'') \<notin> {''.json'', ''.yaml'', ''.yml''} \<and>
   RouteConfig_from_file sample_lib [''routes.txt'' \<mapsto> sample_json_text] ''routes.txt'' =
     Inl UnsupportedFileTypeError \<and>
   sample_open_write ''routes.txt'' = None \<and>
   RouteConfig_to_file sample_lib sample_open_write sample_config ''routes.txt'' Map.empty =
     (Inl UnsupportedFileTypeError, [''routes.txt'' \<mapsto> []])"
proof -
  have h: "snd (splitext ''routes.txt'') \<notin> {''.json'', ''.yaml'', ''.yml''}" by code_simp
  have w: "sample_open_write ''routes.txt'' = None" by code_simp
  from h w unsupported_file_type [OF h, of "[''routes.txt'' \<mapsto> sample_json_text]"
      sample_json_text sample_lib sample_open_write sample_config]
    unsupported_file_type [OF h, of Map.empty _ sample_lib sample_open_write sample_config]
  show ?thesis by simp
qed

text \<open>
  Where the path cannot be opened for writing, saving fails with the error of opening
  it, whatever the extension, and writes nothing.
\<close>

lemma to_file_open_failure:
  "open_w path = Some e \<Longrightarrow> RouteConfig_to_file L open_w rc path fs = (Inl e, fs)"
  by (simp add: RouteConfig_to_file_def Let_def)

lemma to_file_open_failure_examples:
  "RouteConfig_to_file sample_lib sample_open_write sample_config [] Map.empty =
     (Inl FileNotFoundError, Map.empty) \<and>
   RouteConfig_to_file sample_lib sample_open_write sample_config ''/'' Map.empty =
     (Inl IsADirectoryError, Map.empty) \<and>
   RouteConfig_to_file sample_lib sample_open_write sample_config ''nodir/routes.txt'' Map.empty =
     (Inl FileNotFoundError, Map.empty)"
  by (simp add: to_file_open_failure sample_open_write_def)

lemma from_dict_all_keys:
  "kvs \<noteq> [] \<Longrightarrow> from_dict_all L (map (\<lambda>kv. JStr (fst kv)) kvs) = Inl TypeError"
  by (cases kvs) (simp_all add: Route_from_dict_def)

text \<open>
  Claim C10. When the value read from an existing file is a single mapping that has
  the keys \<^verbatim>\<open>name\<close> and \<^verbatim>\<open>utterances\<close>, loading does not return a
  collection: it raises. When moreover the JSON codec reads back, from what it writes
  for the mapping, a value equal to the mapping, the validator accepts the payload, and
  the error is the \<^verbatim>\<open>TypeError\<close> of building a route from the first key of the
  mapping, since the construction iterates over the keys.
\<close>

theorem from_file_single_mapping:
  assumes opened: "fs path = Some content"
    and parsed: "load_by_ext L (snd (splitext path)) content = Inr (JDict kvs)"
    and keys: "''name'' \<in> fst ` set kvs" "''utterances'' \<in> fst ` set kvs"
  shows "(\<exists>e. RouteConfig_from_file L fs path = Inl e) \<and>
         (json_loads L (json_dumps L (JDict kvs)) = Some v \<and> py_eq v (JDict kvs) \<longrightarrow>
            is_valid L (json_dumps L (JDict kvs)) = Inr True \<and>
            RouteConfig_from_file L fs path = Inl TypeError)"
proof -
  from keys have ne: "kvs \<noteq> []" by auto
  have accepted: "RouteConfig_from_file L fs path = Inl TypeError"
    if "is_valid L (json_dumps L (JDict kvs)) = Inr True"
    using that by (simp add: RouteConfig_from_file_def opened parsed from_dict_all_keys [OF ne])
  have raises: "\<exists>e. RouteConfig_from_file L fs path = Inl e"
  proof (cases "is_valid L (json_dumps L (JDict kvs))")
    case (Inl e)
    then show ?thesis by (simp add: RouteConfig_from_file_def opened parsed)
  next
    case (Inr ok)
    then show ?thesis
      using accepted by (cases ok) (simp_all add: RouteConfig_from_file_def opened parsed)
  qed
  have valid: "is_valid L (json_dumps L (JDict kvs)) = Inr True"
    if rt: "json_loads L (json_dumps L (JDict kvs)) = Some v" and eq: "py_eq v (JDict kvs)"
  proof -
    from eq obtain kvs' where v: "v = JDict kvs'" and s: "set kvs' = set kvs"
      by (cases v) auto
    from is_valid_JDict [OF rt [unfolded v]] keys s show ?thesis by simp
  qed
  from raises valid accepted show ?thesis by blast
qed

theorem from_file_single_mapping_witness:
  "RouteConfig_from_file edge_lib [''route.json'' \<mapsto> single_route_text] ''route.json'' =
     Inl TypeError \<and>
   is_valid edge_lib (json_dumps edge_lib single_route_value) = Inr True"
proof -
  have o: "[''route.json'' \<mapsto> single_route_text] ''route.json'' = Some single_route_text"
    by simp
  have p: "load_by_ext edge_lib (snd (splitext ''route.json'')) single_route_text =
      Inr (JDict [(''name'', JStr ''x''), (''utterances'', JList [JStr ''a''])])"
    by code_simp
  have k1: "''name'' \<in> fst ` set [(''name'', JStr ''x''), (''utterances'', JList [JStr ''a''])]"
    by simp
  have k2: "''utterances'' \<in> fst ` set [(''name'', JStr ''x''), (''utterances'', JList [JStr ''a''])]"
    by simp
  have r: "json_loads edge_lib
      (json_dumps edge_lib (JDict [(''name'', JStr ''x''), (''utterances'', JList [JStr ''a''])])) =
      Some single_route_value \<and>
    py_eq single_route_value (JDict [(''name'', JStr ''x''), (''utterances'', JList [JStr ''a''])])"
    by code_simp
  from from_file_single_mapping
      [where fs = "[''route.json'' \<mapsto> single_route_text]" and path = "''route.json''"
         and v = single_route_value, OF o p k1 k2] r
  show ?thesis by (simp add: single_route_value_def)
qed

section \<open>What the validator accepts\<close>

text \<open>
  On a mapping, and on a list of mappings, the validator answers whether both required
  keys are there; a text that does not parse is invalid.
\<close>

lemma is_valid_parse_failure: "json_loads L s = None \<Longrightarrow> is_valid L s = Inr False"
  by (simp add: is_valid_def)

lemma check_items_mappings:
  "check_items (map JDict ds) =
     Inr (\<forall>kvs \<in> set ds. ''name'' \<in> fst ` set kvs \<and> ''utterances'' \<in> fst ` set kvs)"
  by (induction ds) (auto simp: missing_keys_JDict required_keys_def)

lemma is_valid_examples:
  "is_valid edge_lib name_only_text = Inr False \<and>
   is_valid edge_lib single_route_text = Inr True \<and>
   is_valid edge_lib ''{'' = Inr False"
  by code_simp

text \<open>
  Claim C1 says that a payload is accepted only if it is a mapping, or a list of
  mappings, with the keys \<^verbatim>\<open>name\<close> and \<^verbatim>\<open>utterances\<close>, and that the
  validator rejects every other payload before a route is built. The code departs from
  this: the membership test that looks for the keys also succeeds on a list that holds
  the two names as elements. For the JSON text of a list whose only item is such a
  list, the validator answers valid; loading a file with this text, and the synthesis
  on a completion that delimits this text, then fail with the \<^verbatim>\<open>TypeError\<close> of
  the route construction, not with the validator's rejection.
\<close>

theorem from_file_accepts_list_of_lists:
  "json_loads edge_lib nested_list_text = Some (JList [JList [JStr ''name'', JStr ''utterances'']]) \<and>
   is_valid edge_lib nested_list_text = Inr True \<and>
   RouteConfig_from_file edge_lib [''routes.json'' \<mapsto> nested_list_text] ''routes.json'' =
     Inl TypeError \<and>
   agenerate_dynamic_route edge_lib (Some (''<config>'' @ nested_list_text @ ''</config>'')) =
     Inl TypeError"
  by code_simp

text \<open>
  Claim C2 says that the validator answers valid only when both required keys are
  present in the single mapping or in every item of the list. The code departs from
  this: on a string the membership test is a substring test, so the JSON text of the
  string \<^verbatim>\<open>name utterances\<close>, which is no mapping and has no keys, is valid.
\<close>

theorem is_valid_accepts_string:
  "json_loads edge_lib string_payload_text = Some (JStr ''name utterances'') \<and>
   is_valid edge_lib string_payload_text = Inr True"
  by code_simp

text \<open>
  Claim C4 says that the validator returns a boolean on every input string and never
  raises. The code departs from this: only the failure to parse is caught. On the text
  \<^verbatim>\<open>5\<close>, which parses to a number, the membership test raises
  \<^verbatim>\<open>TypeError\<close>, and the validator raises with it.
\<close>

theorem is_valid_raises_on_number:
  "json_loads edge_lib ''5'' = Some (JInt 5) \<and> is_valid edge_lib ''5'' = Inl TypeError"
  by code_simp

section \<open>The signature of a schema\<close>

text \<open>
  Names that sit inside the entries of a joined list occur in the joined text in the
  order of the entries, also when further entries stand between them.
\<close>

lemma join_Cons: "join sep (p # ps) = p @ (if ps = [] then [] else sep @ join sep ps)"
  by (cases ps) simp_all

lemma find_sub_leftmost:
  "s = a @ n @ b \<Longrightarrow> \<exists>a' b'. find_sub n s = Some (a', b') \<and> suffix b b'"
proof (induction s arbitrary: a)
  case Nil
  then show ?case by simp
next
  case (Cons c cs)
  show ?case
  proof (cases "prefix n (c # cs)")
    case True
    have "suffix b (c # cs)" using Cons.prems by (simp add: suffix_def)
    moreover have "suffix (drop (length n) (c # cs)) (c # cs)" by (rule suffix_drop)
    moreover have "length b \<le> length (drop (length n) (c # cs))"
      using Cons.prems by simp
    ultimately have "suffix b (drop (length n) (c # cs))"
      by (rule suffix_length_suffix)
    with True show ?thesis by simp
  next
    case False
    with Cons.prems obtain a0 where a: "a = c # a0" and cs: "cs = a0 @ n @ b"
      by (cases a) auto
    from Cons.IH [OF cs] obtain a' b' where "find_sub n cs = Some (a', b')" "suffix b b'"
      by blast
    with False show ?thesis by simp
  qed
qed

lemma occur_in_order_suffix:
  "occur_in_order ns b \<Longrightarrow> suffix b b' \<Longrightarrow> occur_in_order ns b'"
proof (induction ns arbitrary: b b')
  case Nil
  then show ?case by simp
next
  case (Cons n ns)
  from Cons.prems(1) obtain x r where f: "find_sub n b = Some (x, r)" and o: "occur_in_order ns r"
    by (auto split: option.splits)
  from find_sub_sound [OF f] have b: "b = x @ n @ r" .
  from Cons.prems(2) obtain z where "b' = z @ b" by (auto simp: suffix_def)
  with b have "b' = (z @ x) @ n @ r" by simp
  from find_sub_leftmost [OF this] obtain a' r' where
    f': "find_sub n b' = Some (a', r')" and "suffix r r'" by blast
  from Cons.IH [OF o this(2)] f' show ?case by simp
qed

lemma occur_in_order_behind:
  assumes "occur_in_order ns b"
  shows "occur_in_order (n # ns) (a @ n @ b)"
proof -
  from find_sub_leftmost [of "a @ n @ b" a n b] obtain a' b' where
    "find_sub n (a @ n @ b) = Some (a', b')" "suffix b b'" by blast
  with occur_in_order_suffix [OF assms] show ?thesis by simp
qed

lemma occur_in_order_join:
  "list_all2 sublist ns es \<Longrightarrow> subseq es parts \<Longrightarrow>
     occur_in_order ns (pre @ join sep parts @ post)"
proof (induction parts arbitrary: ns es pre)
  case Nil
  then have "es = []" by simp
  with Nil.prems(1) have "ns = []" by simp
  then show ?case by simp
next
  case (Cons p ps)
  show ?case
  proof (cases ns)
    case Nil
    then show ?thesis by simp
  next
    case ns: (Cons n ns')
    with Cons.prems(1) obtain e es' where es: "es = e # es'" and ne: "sublist n e"
      and rest: "list_all2 sublist ns' es'"
      by (auto simp: list_all2_Cons1)
    show ?thesis
    proof (cases "e = p \<and> subseq es' ps")
      case True
      from ne True obtain x y where p: "p = x @ n @ y" by (auto simp: sublist_def)
      have "\<exists>b. pre @ join sep (p # ps) @ post = (pre @ x) @ n @ b \<and> occur_in_order ns' b"
      proof (cases ps)
        case Nil
        with True have "es' = []" by (auto dest: list_emb_Nil2)
        with rest have "ns' = []" by simp
        with Nil p show ?thesis by simp
      next
        case (Cons q qs)
        from True have "occur_in_order ns' ((y @ sep) @ join sep ps @ post)"
          by (intro Cons.IH [OF rest]) simp
        with Cons p show ?thesis by simp
      qed
      then obtain b where s: "pre @ join sep (p # ps) @ post = (pre @ x) @ n @ b"
        and o: "occur_in_order ns' b" by blast
      from occur_in_order_behind [OF o, of n "pre @ x"] s ns show ?thesis by simp
    next
      case False
      with Cons.prems(2) es have skip: "subseq (e # es') ps"
        by (auto elim: list_emb.cases)
      then have "ps \<noteq> []" by auto
      have "occur_in_order ns ((pre @ p @ sep) @ join sep ps @ post)"
        using Cons.prems(1) skip unfolding es by (rule Cons.IH)
      with \<open>ps \<noteq> []\<close> show ?thesis by (simp add: join_Cons)
    qed
  qed
qed

lemma signature_parts_entries:
  "signature_parts flds anns = Inr parts \<Longrightarrow>
     list_all2 (\<lambda>n p. prefix (n @ '': '') p) (map fst anns) parts"
proof (induction anns arbitrary: parts)
  case Nil
  then show ?case by simp
next
  case (Cons a anns)
  obtain n t where a: "a = (n, t)" by (cases a)
  from Cons.prems obtain d ty ps where
    "signature_parts flds anns = Inr ps" "parts = signature_part n ty d # ps"
    unfolding a by (auto split: option.splits sum.splits)
  with Cons.IH [of ps] show ?case
    unfolding a by (simp add: signature_part_def)
qed

lemma signature_parts_returns:
  "\<forall>(n, t) \<in> set anns. n \<in> fst ` set flds \<and> t \<noteq> None \<Longrightarrow>
     \<exists>parts. signature_parts flds anns = Inr parts"
proof (induction anns)
  case Nil
  then show ?case by simp
next
  case (Cons a anns)
  obtain n t where a: "a = (n, t)" by (cases a)
  from Cons.prems have "map_of flds n \<noteq> None" "t \<noteq> None"
    unfolding a by (simp_all add: map_of_eq_None_iff)
  then obtain d ty where "map_of flds n = Some d" "t = Some ty"
    by blast
  moreover from Cons obtain ps where "signature_parts flds anns = Inr ps" by auto
  ultimately show ?case unfolding a by simp
qed

text \<open>
  The rendering of a parameter holds its name behind at most two stars, and the entries
  of a rendered signature are the renderings of the parameters, in their order, with
  nothing but slashes and lone stars between them.
\<close>

lemma str_parameter_name:
  "\<exists>stars rest. str_parameter param = stars @ p_name param @ rest \<and>
     stars \<in> {[], ''*'', ''**''}"
proof -
  let ?stars = "if p_kind param = VAR_POSITIONAL then ''*''
       else if p_kind param = VAR_KEYWORD then ''**'' else []"
  let ?rest = "case p_default param of
       None \<Rightarrow> (case p_annotation param of None \<Rightarrow> [] | Some a \<Rightarrow> '': '' @ a)
     | Some d \<Rightarrow> (case p_annotation param of
          None \<Rightarrow> ''='' @ d
        | Some a \<Rightarrow> '': '' @ a @ '' = '' @ d)"
  have eq: "str_parameter param = ?stars @ p_name param @ ?rest"
    by (cases "p_annotation param"; cases "p_default param")
       (simp_all add: str_parameter_def)
  have "?stars \<in> {[], ''*'', ''**''}" by simp
  with eq show ?thesis by blast
qed

lemma str_parameter_sublist: "sublist (p_name param) (str_parameter param)"
proof -
  from str_parameter_name [of param] obtain stars rest where
    "str_parameter param = stars @ p_name param @ rest" by blast
  then show ?thesis unfolding sublist_def by blast
qed

lemma render_params_Cons:
  "\<exists>slash star pos_flag kw_flag.
     render_params (param # rest) pos kw =
       slash @ star @ str_parameter param # render_params rest pos_flag kw_flag \<and>
     (slash = [] \<or> slash = [''/'']) \<and> (star = [] \<or> star = [''*''])"
proof -
  let ?kind = "p_kind param"
  let ?slash = "if ?kind = POSITIONAL_ONLY then [] else if pos then [''/''] else []"
  let ?star = "if ?kind = VAR_POSITIONAL then []
       else if ?kind = KEYWORD_ONLY \<and> kw then [''*''] else []"
  let ?kw = "if ?kind = VAR_POSITIONAL then False
       else if ?kind = KEYWORD_ONLY \<and> kw then False else kw"
  have "render_params (param # rest) pos kw =
      ?slash @ ?star @ str_parameter param # render_params rest (?kind = POSITIONAL_ONLY) ?kw"
    by (simp only: render_params.simps Let_def append_Cons append_Nil)
  moreover have "?slash = [] \<or> ?slash = [''/'']" by simp
  moreover have "?star = [] \<or> ?star = [''*'']" by simp
  ultimately show ?thesis by blast
qed

lemma render_params_subseq:
  "subseq (map str_parameter ps) (render_params ps pos kw)"
proof (induction ps arbitrary: pos kw)
  case Nil
  show ?case by simp
next
  case (Cons param rest)
  from render_params_Cons [of param rest pos kw] obtain slash star pos_flag kw_flag where
    r: "render_params (param # rest) pos kw =
       slash @ star @ str_parameter param # render_params rest pos_flag kw_flag" by blast
  have "subseq (str_parameter param # map str_parameter rest)
      (str_parameter param # render_params rest pos_flag kw_flag)"
    using Cons.IH by simp
  then have "subseq (str_parameter param # map str_parameter rest)
      (star @ str_parameter param # render_params rest pos_flag kw_flag)"
    by (rule list_emb_append2)
  then have "subseq (str_parameter param # map str_parameter rest)
      (slash @ star @ str_parameter param # render_params rest pos_flag kw_flag)"
    by (rule list_emb_append2)
  with r show ?case by simp
qed

lemma render_params_filter:
  "filter (\<lambda>e. e \<noteq> ''/'' \<and> e \<noteq> ''*'') (render_params ps pos kw) =
   filter (\<lambda>e. e \<noteq> ''/'' \<and> e \<noteq> ''*'') (map str_parameter ps)"
proof (induction ps arbitrary: pos kw)
  case Nil
  show ?case by simp
next
  case (Cons param rest)
  let ?keep = "\<lambda>e. e \<noteq> ''/'' \<and> e \<noteq> ''*''"
  from render_params_Cons [of param rest pos kw] obtain slash star pos_flag kw_flag where
    r: "render_params (param # rest) pos kw =
       slash @ star @ str_parameter param # render_params rest pos_flag kw_flag"
    and sl: "slash = [] \<or> slash = [''/'']" and st: "star = [] \<or> star = [''*'']" by blast
  from sl have fsl: "filter ?keep slash = []" by auto
  from st have fst: "filter ?keep star = []" by auto
  have "filter ?keep (render_params (param # rest) pos kw) =
      filter ?keep (str_parameter param # render_params rest pos_flag kw_flag)"
    unfolding r filter_append fsl fst by simp
  also have "\<dots> = filter ?keep (str_parameter param # map str_parameter rest)"
    using Cons.IH [of pos_flag kw_flag] by simp
  finally show ?case by simp
qed

lemma names_in_renderings:
  "list_all2 sublist (map p_name ps) (map str_parameter ps)"
  by (induction ps) (simp_all add: str_parameter_sublist)

lemma names_in_entries:
  "list_all2 (\<lambda>n p. prefix (n @ '': '') p) ns parts \<Longrightarrow> list_all2 sublist ns parts"
  by (erule list_all2_mono) (auto simp: prefix_def sublist_def)

text \<open>
  Where reflection cannot obtain the name or the signature of the callable, no schema
  is built.
\<close>

lemma get_schema_callable_errors:
  "(fn_name c = None \<longrightarrow> get_schema (Callable c) = Inl AttributeError) \<and>
   (fn_name c = Some nm \<and> fn_signature c = Inl e \<longrightarrow> get_schema (Callable c) = Inl e)"
  by (simp add: get_schema_def)

text \<open>
  Claim C5, as amended. For a data-model instance whose declared fields are the names
  annotated in its own class, in the same order, each with a type that has a name, the
  schema is built and its signature is an opening parenthesis, the entries joined by a
  comma and a space, and the suffix \<^verbatim>\<open>) -> str\<close>, with one entry per declared
  field, in declaration order, each entry starting with the name of its field, a colon
  and a space. For a callable whose name and signature reflection can obtain, the
  schema is built and its signature is an opening parenthesis, the entries joined by a
  comma and a space, a closing parenthesis and, if there is a return annotation, an
  arrow and the annotation; the entries are the renderings of the declared parameters,
  one for each and in declaration order, with only the separator entries
  \<^verbatim>\<open>/\<close> and \<^verbatim>\<open>*\<close> between them, and the rendering of a parameter is its name,
  behind one or two stars for the variadic kinds and in front of its annotation and
  default. In both cases the declared names occur in the signature one after the other
  in declaration order, without overlap. Nothing is said about how often a name occurs
  in the signature as a substring, nor about fields that a model inherits.
\<close>

theorem get_schema_signature:
  "(map fst (class_fields m) = map fst (class_annotations m) \<and>
    (\<forall>(n, t) \<in> set (class_annotations m). t \<noteq> None) \<longrightarrow>
      (\<exists>sch parts.
         get_schema (Model m) = Inr sch \<and>
         schema_signature sch = ''('' @ join '', '' parts @ '') -> str'' \<and>
         list_all2 (\<lambda>n p. prefix (n @ '': '') p) (map fst (class_fields m)) parts \<and>
         occur_in_order (map fst (class_fields m)) (schema_signature sch))) \<and>
   (fn_name c = Some nm \<and> fn_signature c = Inr sg \<longrightarrow>
      (\<exists>sch entries.
         get_schema (Callable c) = Inr sch \<and>
         schema_signature sch =
           ''('' @ join '', '' entries @ '')'' @
           (case sig_return_formatted sg of None \<Rightarrow> [] | Some anno \<Rightarrow> '' -> '' @ anno) \<and>
         subseq (map str_parameter (sig_parameters sg)) entries \<and>
         filter (\<lambda>e. e \<noteq> ''/'' \<and> e \<noteq> ''*'') entries =
           filter (\<lambda>e. e \<noteq> ''/'' \<and> e \<noteq> ''*'') (map str_parameter (sig_parameters sg)) \<and>
         (\<forall>param \<in> set (sig_parameters sg).
            \<exists>stars rest. str_parameter param = stars @ p_name param @ rest \<and>
              stars \<in> {[], ''*'', ''**''}) \<and>
         occur_in_order (map p_name (sig_parameters sg)) (schema_signature sch)))"
proof (intro conjI impI)
  assume ok: "map fst (class_fields m) = map fst (class_annotations m) \<and>
    (\<forall>(n, t) \<in> set (class_annotations m). t \<noteq> None)"
  then have names: "map fst (class_fields m) = map fst (class_annotations m)"
    and typed: "\<forall>(n, t) \<in> set (class_annotations m). t \<noteq> None"
    by (rule conjunct1, rule conjunct2)
  have "set (map fst (class_annotations m)) = set (map fst (class_fields m))"
    by (simp only: names)
  then have img: "fst ` set (class_annotations m) = fst ` set (class_fields m)"
    by simp
  have "\<forall>(n, t) \<in> set (class_annotations m). n \<in> fst ` set (class_fields m) \<and> t \<noteq> None"
  proof (intro ballI)
    fix a assume a: "a \<in> set (class_annotations m)"
    then have "fst a \<in> fst ` set (class_fields m)" unfolding img [symmetric] by (rule imageI)
    moreover from typed a have "snd a \<noteq> None" by (cases a) auto
    ultimately show "case a of (n, t) \<Rightarrow> n \<in> fst ` set (class_fields m) \<and> t \<noteq> None"
      by (cases a) simp
  qed
  from signature_parts_returns [OF this] obtain parts where
    parts: "signature_parts (class_fields m) (class_annotations m) = Inr parts" by blast
  let ?sig = "''('' @ join '', '' parts @ '') -> str''"
  from signature_parts_entries [OF parts] names
  have entries: "list_all2 (\<lambda>n p. prefix (n @ '': '') p) (map fst (class_fields m)) parts"
    by simp
  then have "list_all2 sublist (map fst (class_fields m)) parts"
    by (rule names_in_entries)
  then have occ: "occur_in_order (map fst (class_fields m)) ?sig"
    by (rule occur_in_order_join) simp
  let ?sch = "\<lparr>schema_name = class_name m, schema_description = class_doc m,
      schema_signature = ?sig, schema_output = None\<rparr>"
  have "get_schema (Model m) = Inr ?sch"
    by (simp add: get_schema_def parts)
  with entries occ show "\<exists>sch parts.
         get_schema (Model m) = Inr sch \<and>
         schema_signature sch = ''('' @ join '', '' parts @ '') -> str'' \<and>
         list_all2 (\<lambda>n p. prefix (n @ '': '') p) (map fst (class_fields m)) parts \<and>
         occur_in_order (map fst (class_fields m)) (schema_signature sch)"
    by (intro exI [of _ ?sch] exI [of _ parts]) simp
next
  assume c: "fn_name c = Some nm \<and> fn_signature c = Inr sg"
  let ?keep = "\<lambda>e. e \<noteq> ''/'' \<and> e \<noteq> ''*''"
  let ?ps = "sig_parameters sg"
  let ?entries = "render_params ?ps False True"
  let ?ret = "case sig_return_formatted sg of None \<Rightarrow> [] | Some anno \<Rightarrow> '' -> '' @ anno"
  let ?sch = "\<lparr>schema_name = nm,
      schema_description = Some (case fn_doc c of None \<Rightarrow> ''None'' | Some d \<Rightarrow> d),
      schema_signature = str_signature sg, schema_output = Some (sig_return_str sg)\<rparr>"
  have g: "get_schema (Callable c) = Inr ?sch"
    using c by (simp add: get_schema_def)
  have sig: "schema_signature ?sch = ''('' @ join '', '' ?entries @ '')'' @ ?ret"
    by (simp add: str_signature_def)
  have sub: "subseq (map str_parameter ?ps) ?entries" by (rule render_params_subseq)
  have fil: "filter ?keep ?entries = filter ?keep (map str_parameter ?ps)"
    by (rule render_params_filter)
  have nam: "\<forall>param \<in> set ?ps.
      \<exists>stars rest. str_parameter param = stars @ p_name param @ rest \<and>
        stars \<in> {[], ''*'', ''**''}"
    by (intro ballI) (rule str_parameter_name)
  have "occur_in_order (map p_name ?ps) (''('' @ join '', '' ?entries @ ('')'' @ ?ret))"
    using names_in_renderings sub by (rule occur_in_order_join)
  then have occ: "occur_in_order (map p_name ?ps) (schema_signature ?sch)"
    unfolding sig by simp
  show "\<exists>sch entries.
         get_schema (Callable c) = Inr sch \<and>
         schema_signature sch = ''('' @ join '', '' entries @ '')'' @ ?ret \<and>
         subseq (map str_parameter ?ps) entries \<and>
         filter ?keep entries = filter ?keep (map str_parameter ?ps) \<and>
         (\<forall>param \<in> set ?ps.
            \<exists>stars rest. str_parameter param = stars @ p_name param @ rest \<and>
              stars \<in> {[], ''*'', ''**''}) \<and>
         occur_in_order (map p_name ?ps) (schema_signature sch)"
  proof (intro exI conjI)
    show "get_schema (Callable c) = Inr ?sch" by (rule g)
    show "schema_signature ?sch = ''('' @ join '', '' ?entries @ '')'' @ ?ret" by (rule sig)
    show "subseq (map str_parameter ?ps) ?entries" by (rule sub)
    show "filter ?keep ?entries = filter ?keep (map str_parameter ?ps)" by (rule fil)
    show "\<forall>param \<in> set ?ps.
      \<exists>stars rest. str_parameter param = stars @ p_name param @ rest \<and>
        stars \<in> {[], ''*'', ''**''}" by (rule nam)
    show "occur_in_order (map p_name ?ps) (schema_signature ?sch)" by (rule occ)
  qed
qed

theorem get_schema_signature_witness:
  "get_schema (Model \<lparr>class_name = ''Query'', class_doc = Some ''A search query.'',
       class_annotations = [(''city'', Some ''str''), (''limit'', Some ''int'')],
       class_fields = [(''city'', PyObj False ''None''), (''limit'', PyObj True ''10'')]\<rparr>) =
     Inr \<lparr>schema_name = ''Query'', schema_description = Some ''A search query.'',
          schema_signature = ''(city: str, limit: int = 10) -> str'', schema_output = None\<rparr> \<and>
   occur_in_order [''city'', ''limit''] ''(city: str, limit: int = 10) -> str'' \<and>
   get_schema (Callable sample_callable) =
     Inr \<lparr>schema_name = ''search'', schema_description = Some ''Search for something.'',
          schema_signature =
            ''(query, /, city: str, limit: int = 10, *tags, exact=False, **options) -> str'',
          schema_output = Some ''<class 'str'>''\<rparr> \<and>
   occur_in_order [''query'', ''city'', ''limit'', ''tags'', ''exact'', ''options'']
     ''(query, /, city: str, limit: int = 10, *tags, exact=False, **options) -> str''"
proof -
  let ?m = "\<lparr>class_name = ''Query'', class_doc = Some ''A search query.'',
       class_annotations = [(''city'', Some ''str''), (''limit'', Some ''int'')],
       class_fields = [(''city'', PyObj False ''None''), (''limit'', PyObj True ''10'')]\<rparr>"
  let ?sg = "projr (fn_signature sample_callable)"
  have h1: "map fst (class_fields ?m) = map fst (class_annotations ?m) \<and>
    (\<forall>(n, t) \<in> set (class_annotations ?m). t \<noteq> None)" by simp
  have h2: "fn_name sample_callable = Some ''search'' \<and> fn_signature sample_callable = Inr ?sg"
    by (simp add: sample_callable_def)
  have e: ?thesis by code_simp
  from get_schema_signature [of ?m sample_callable "''search''" ?sg] h1 h2 e
  show ?thesis by blast
qed

text \<open>
  The claim as it was stated asks that every declared name occurs exactly once in the
  signature. A model with the single field \<^verbatim>\<open>s: str\<close> and a function with the
  single parameter \<^verbatim>\<open>s: str\<close> and the return annotation \<^verbatim>\<open>str\<close> have the
  signature \<^verbatim>\<open>(s: str) -> str\<close>, in which the name occurs three times. A model
  that declares \<^verbatim>\<open>s: str\<close> and inherits a field \<^verbatim>\<open>base_id\<close> has the same
  signature, in which the inherited name does not occur at all.
\<close>

theorem get_schema_count_counterexample:
  "get_schema (Model \<lparr>class_name = ''Query'', class_doc = None,
       class_annotations = [(''s'', Some ''str'')],
       class_fields = [(''s'', PyObj False ''None'')]\<rparr>) =
     Inr \<lparr>schema_name = ''Query'', schema_description = None,
          schema_signature = ''(s: str) -> str'', schema_output = None\<rparr> \<and>
   get_schema (Callable \<lparr>fn_name = Some ''f'', fn_doc = None,
       fn_signature = Inr \<lparr>sig_parameters =
           [\<lparr>p_name = ''s'', p_kind = POSITIONAL_OR_KEYWORD,
              p_annotation = Some ''str'', p_default = None\<rparr>],
         sig_return_formatted = Some ''str'', sig_return_str = ''<class 'str'>''\<rparr>\<rparr>) =
     Inr \<lparr>schema_name = ''f'', schema_description = Some ''None'',
          schema_signature = ''(s: str) -> str'', schema_output = Some ''<class 'str'>''\<rparr> \<and>
   count_occurrences ''s'' ''(s: str) -> str'' = 3 \<and>
   get_schema (Model \<lparr>class_name = ''Query'', class_doc = None,
       class_annotations = [(''s'', Some ''str'')],
       class_fields = [(''base_id'', PyObj False ''None''), (''s'', PyObj False ''None'')]\<rparr>) =
     Inr \<lparr>schema_name = ''Query'', schema_description = None,
          schema_signature = ''(s: str) -> str'', schema_output = None\<rparr> \<and>
   count_occurrences ''base_id'' ''(s: str) -> str'' = 0"
  by code_simp

end
